theory Spec2Isabelle
  imports Complex_Main "HOL-Library.Word"
begin

section \<open>The type \<open>double\<close>\<close>

text \<open>
  The program computes on C++ \<open>double\<close> values.  They are modelled as IEEE 754 binary64
  bit patterns: one sign bit, eleven bits of biased exponent, fifty-two bits of fraction.
  Every operation rounds its exact result to the nearest representable value, ties to the
  even significand, which is the default rounding mode; overflow gives an infinity, an
  invalid operation gives a quiet NaN.  Each operation is rounded on its own, as where
  \<open>double\<close> expressions are evaluated in \<open>double\<close> precision.  Which NaN an operation returns
  is not modelled: every NaN result is the same quiet NaN, and nothing in the program
  tells one NaN from another.  Exact values are rational numbers.
\<close>

type_synonym double = "64 word"

text \<open>
  What a bit pattern stands for: a NaN, an infinity with its sign, or a finite number with
  its sign (\<open>True\<close> for negative) and its absolute value.  Zero has a sign as well.
\<close>

datatype fp = NaN | Inf bool | Fin bool rat

definition pow2 :: "int \<Rightarrow> rat" where
  "pow2 k = (if 0 \<le> k then 2 ^ nat k else 1 / 2 ^ nat (- k))"

text \<open>
  From the sign, the biased exponent and the fraction.  The exponent field 2047 marks
  infinities and NaNs, the exponent field 0 the subnormal numbers and the zeros.
\<close>

definition unpack_fields :: "bool \<Rightarrow> int \<Rightarrow> int \<Rightarrow> fp" where
  "unpack_fields s e f =
     (if e = 2047 then (if f = 0 then Inf s else NaN)
      else if e = 0 then Fin s (of_int f * pow2 (- 1074))
      else Fin s (of_int (2 ^ 52 + f) * pow2 (e - 1075)))"

definition unpack_bits :: "int \<Rightarrow> fp" where
  "unpack_bits u = unpack_fields (2 ^ 63 \<le> u) (u div 2 ^ 52 mod 2 ^ 11) (u mod 2 ^ 52)"

definition unpack :: "double \<Rightarrow> fp" where
  "unpack d = unpack_bits (uint d)"

definition signed :: "bool \<Rightarrow> rat \<Rightarrow> rat" where
  "signed s m = (if s then - m else m)"

fun fp_value :: "fp \<Rightarrow> rat" where
  "fp_value (Fin s m) = signed s m"
| "fp_value _ = 0"

fun fp_finite :: "fp \<Rightarrow> bool" where
  "fp_finite (Fin s m) = True"
| "fp_finite _ = False"

definition is_finite :: "double \<Rightarrow> bool" where
  "is_finite d = fp_finite (unpack d)"

text \<open>The number a finite pattern stands for.\<close>

definition valof :: "double \<Rightarrow> rat" where
  "valof d = fp_value (unpack d)"

definition plus_zero :: double where "plus_zero = 0"
definition minus_zero :: double where "minus_zero = 0x8000000000000000"
definition plus_inf :: double where "plus_inf = 0x7FF0000000000000"
definition minus_inf :: double where "minus_inf = 0xFFF0000000000000"
definition quiet_nan :: double where "quiet_nan = 0x7FF8000000000000"

definition signed_zero :: "bool \<Rightarrow> double" where
  "signed_zero negative = (if negative then minus_zero else plus_zero)"

definition signed_inf :: "bool \<Rightarrow> double" where
  "signed_inf negative = (if negative then minus_inf else plus_inf)"

subsection \<open>Rounding to nearest, ties to even\<close>

function bit_length :: "int \<Rightarrow> int" where
  "bit_length n = (if n \<le> 0 then 0 else 1 + bit_length (n div 2))"
  by pat_completeness auto
termination
  by (relation "measure nat") auto

declare bit_length.simps [simp del]

text \<open>For \<open>0 < x\<close>, the integer \<open>e\<close> with \<open>2 ^ e \<le> x < 2 ^ (e + 1)\<close>.\<close>

definition ilog2 :: "rat \<Rightarrow> int" where
  "ilog2 x = (if 1 \<le> x then bit_length \<lfloor>x\<rfloor> - 1
              else - bit_length (\<lceil>1 / x\<rceil> - 1))"

text \<open>The integer nearest to \<open>x\<close>, given \<open>n = \<lfloor>x\<rfloor>\<close>; of two equally near, the even one.\<close>

definition nearest_even :: "rat \<Rightarrow> int \<Rightarrow> int" where
  "nearest_even x n =
     (if x - of_int n < 1 / 2 then n
      else if 1 / 2 < x - of_int n then n + 1
      else if even n then n else n + 1)"

definition round_half_even :: "rat \<Rightarrow> int" where
  "round_half_even x = nearest_even x \<lfloor>x\<rfloor>"

text \<open>
  The low 63 bits of the pattern nearest to \<open>x \<ge> 0\<close>.  With \<open>e\<close> the exponent of \<open>x\<close>, not
  below that of the smallest normal number, \<open>x\<close> is rounded to a multiple \<open>n\<close> of
  \<open>2 ^ (e - 52)\<close>.  Exponent field and fraction are then \<open>(e + 1022) * 2 ^ 52 + n\<close>: the
  leading bit of a normal \<open>n\<close> adds one to the exponent field, and so does a significand
  that rounds up to \<open>2 ^ 53\<close>.  What reaches the exponent field 2047 has overflowed.
\<close>

definition round_at :: "int \<Rightarrow> rat \<Rightarrow> int" where
  "round_at e x =
     min (2047 * 2 ^ 52) ((e + 1022) * 2 ^ 52 + round_half_even (x / pow2 (e - 52)))"

definition round_magnitude :: "rat \<Rightarrow> int" where
  "round_magnitude x = (if x = 0 then 0 else round_at (max (ilog2 x) (- 1022)) x)"

definition double_of_rat :: "rat \<Rightarrow> double" where
  "double_of_rat x =
     (if x < 0 then word_of_int (2 ^ 63 + round_magnitude (- x))
      else word_of_int (round_magnitude x))"

subsection \<open>Literals and conversions\<close>

text \<open>A decimal floating literal, and the conversion of an \<open>int\<close> operand to \<open>double\<close>.\<close>

definition double_literal :: "rat \<Rightarrow> double" where
  "double_literal x = double_of_rat x"

definition double_of_int :: "int \<Rightarrow> double" where
  "double_of_int k = double_of_rat (of_int k)"

subsection \<open>Operations\<close>

text \<open>Negation flips the sign bit, \<open>std::abs\<close> clears it; neither looks at the rest.\<close>

definition double_neg :: "double \<Rightarrow> double" where
  "double_neg d =
     (if 2 ^ 63 \<le> uint d then d - 0x8000000000000000 else d + 0x8000000000000000)"

definition double_abs :: "double \<Rightarrow> double" where
  "double_abs d = (if 2 ^ 63 \<le> uint d then d - 0x8000000000000000 else d)"

text \<open>
  The result of an operation on finite operands whose exact value is \<open>r\<close>.  An exact zero
  has the sign the operation prescribes; anything else is rounded and keeps its own sign.
\<close>

definition round_result :: "bool \<Rightarrow> rat \<Rightarrow> double" where
  "round_result negative_zero r =
     (if r = 0 then signed_zero negative_zero else double_of_rat r)"

fun add_fp :: "fp \<Rightarrow> fp \<Rightarrow> double" where
  "add_fp NaN _ = quiet_nan"
| "add_fp _ NaN = quiet_nan"
| "add_fp (Inf s) (Inf t) = (if s = t then signed_inf s else quiet_nan)"
| "add_fp (Inf s) (Fin t y) = signed_inf s"
| "add_fp (Fin s x) (Inf t) = signed_inf t"
| "add_fp (Fin s x) (Fin t y) = round_result (s \<and> t) (signed s x + signed t y)"

fun mul_fp :: "fp \<Rightarrow> fp \<Rightarrow> double" where
  "mul_fp NaN _ = quiet_nan"
| "mul_fp _ NaN = quiet_nan"
| "mul_fp (Inf s) (Inf t) = signed_inf (s \<noteq> t)"
| "mul_fp (Inf s) (Fin t y) = (if y = 0 then quiet_nan else signed_inf (s \<noteq> t))"
| "mul_fp (Fin s x) (Inf t) = (if x = 0 then quiet_nan else signed_inf (s \<noteq> t))"
| "mul_fp (Fin s x) (Fin t y) = round_result (s \<noteq> t) (signed s x * signed t y)"

fun div_fp :: "fp \<Rightarrow> fp \<Rightarrow> double" where
  "div_fp NaN _ = quiet_nan"
| "div_fp _ NaN = quiet_nan"
| "div_fp (Inf s) (Inf t) = quiet_nan"
| "div_fp (Inf s) (Fin t y) = signed_inf (s \<noteq> t)"
| "div_fp (Fin s x) (Inf t) = signed_zero (s \<noteq> t)"
| "div_fp (Fin s x) (Fin t y) =
     (if y = 0 then (if x = 0 then quiet_nan else signed_inf (s \<noteq> t))
      else round_result (s \<noteq> t) (signed s x / signed t y))"

text \<open>Comparison: false when an operand is a NaN; the two zeros are equal.\<close>

fun lt_fp :: "fp \<Rightarrow> fp \<Rightarrow> bool" where
  "lt_fp NaN _ = False"
| "lt_fp _ NaN = False"
| "lt_fp (Inf s) (Inf t) = (s \<and> \<not> t)"
| "lt_fp (Inf s) (Fin t y) = s"
| "lt_fp (Fin s x) (Inf t) = (\<not> t)"
| "lt_fp (Fin s x) (Fin t y) = (signed s x < signed t y)"

definition double_add :: "double \<Rightarrow> double \<Rightarrow> double" where
  "double_add a b = add_fp (unpack a) (unpack b)"

definition double_sub :: "double \<Rightarrow> double \<Rightarrow> double" where
  "double_sub a b = double_add a (double_neg b)"

definition double_mul :: "double \<Rightarrow> double \<Rightarrow> double" where
  "double_mul a b = mul_fp (unpack a) (unpack b)"

definition double_div :: "double \<Rightarrow> double \<Rightarrow> double" where
  "double_div a b = div_fp (unpack a) (unpack b)"

definition double_lt :: "double \<Rightarrow> double \<Rightarrow> bool" where
  "double_lt a b = lt_fp (unpack a) (unpack b)"

section \<open>The program\<close>

subsection \<open>Tolerance\<close>

definition EPSILON :: double where
  "EPSILON = double_literal (1 / 1000)"

definition AreEqual :: "double \<Rightarrow> double \<Rightarrow> bool" where
  "AreEqual d1 d2 = double_lt (double_abs (double_sub d1 d2)) EPSILON"

subsection \<open>Quantities\<close>

datatype Scale = CELSIUS | FAHRENHEIT | KELVIN

text \<open>
  \<open>Quantity<S>\<close> holds one \<open>double\<close>; the template argument \<open>S\<close> is kept as a tag.
\<close>

datatype Quantity = Quantity (scale: Scale) (amount: double)

text \<open>
  What the compiler rejects.  The operator templates take two \<open>Quantity<S>\<close> of one \<open>S\<close>:
  with operands of two scales no \<open>S\<close> can be deduced and there is no function to call.
  The primary template of \<open>ConversionTraits\<close> declares \<open>Convert\<close> deleted.
\<close>

datatype compile_error = NoMatchingFunction | UseOfDeletedFunction

definition operator_eq :: "Quantity \<Rightarrow> Quantity \<Rightarrow> compile_error + bool" where
  "operator_eq lhs rhs =
     (if scale lhs = scale rhs then Inr (AreEqual (amount lhs) (amount rhs))
      else Inl NoMatchingFunction)"

definition operator_ne :: "Quantity \<Rightarrow> Quantity \<Rightarrow> compile_error + bool" where
  "operator_ne lhs rhs = map_sum id Not (operator_eq lhs rhs)"

text \<open>
  The body of \<open>operator<\<close> is \<open>return lhs < rhs;\<close> on the same two quantities: the operator
  calls itself.  A call that never returns has the value \<open>None\<close>.
\<close>

partial_function (option) operator_lt ::
    "Quantity \<Rightarrow> Quantity \<Rightarrow> (compile_error + bool) option" where
  "operator_lt lhs rhs =
     (if scale lhs = scale rhs then operator_lt lhs rhs
      else Some (Inl NoMatchingFunction))"

definition operator_gt :: "Quantity \<Rightarrow> Quantity \<Rightarrow> (compile_error + bool) option" where
  "operator_gt lhs rhs = operator_lt rhs lhs"

definition operator_le :: "Quantity \<Rightarrow> Quantity \<Rightarrow> (compile_error + bool) option" where
  "operator_le lhs rhs = map_option (map_sum id Not) (operator_gt lhs rhs)"

definition operator_ge :: "Quantity \<Rightarrow> Quantity \<Rightarrow> (compile_error + bool) option" where
  "operator_ge lhs rhs = map_option (map_sum id Not) (operator_lt lhs rhs)"

definition operator_plus :: "Quantity \<Rightarrow> Quantity \<Rightarrow> compile_error + Quantity" where
  "operator_plus q1 q2 =
     (if scale q1 = scale q2
      then Inr (Quantity (scale q1) (double_add (amount q1) (amount q2)))
      else Inl NoMatchingFunction)"

definition operator_minus :: "Quantity \<Rightarrow> Quantity \<Rightarrow> compile_error + Quantity" where
  "operator_minus q1 q2 =
     (if scale q1 = scale q2
      then Inr (Quantity (scale q1) (double_sub (amount q1) (amount q2)))
      else Inl NoMatchingFunction)"

subsection \<open>Conversions\<close>

text \<open>
  The six specialisations of \<open>ConversionTraits<S, R>\<close>, in the order of the source; every
  other pair falls to the primary template, whose \<open>Convert\<close> is deleted.
\<close>

fun ConversionTraits :: "Scale \<Rightarrow> Scale \<Rightarrow> (double \<Rightarrow> double) option" where
  "ConversionTraits CELSIUS KELVIN =
     Some (\<lambda>v. double_add v (double_literal (27315 / 100)))"
| "ConversionTraits KELVIN CELSIUS =
     Some (\<lambda>v. double_sub v (double_literal (27315 / 100)))"
| "ConversionTraits CELSIUS FAHRENHEIT =
     Some (\<lambda>v. double_add (double_div (double_mul v (double_of_int 9)) (double_of_int 5))
                   (double_of_int 32))"
| "ConversionTraits FAHRENHEIT CELSIUS =
     Some (\<lambda>v. double_div (double_mul (double_sub v (double_of_int 32)) (double_of_int 5))
                   (double_of_int 9))"
| "ConversionTraits FAHRENHEIT KELVIN =
     Some (\<lambda>v. double_div (double_mul (double_add v (double_literal (45967 / 100)))
                   (double_of_int 5)) (double_of_int 9))"
| "ConversionTraits KELVIN FAHRENHEIT =
     Some (\<lambda>v. double_sub (double_div (double_mul v (double_of_int 9)) (double_of_int 5))
                   (double_literal (45967 / 100)))"
| "ConversionTraits _ _ = None"

text \<open>\<open>temperature_cast<R>(q)\<close> for \<open>q\<close> of type \<open>Quantity<S>\<close>.\<close>

definition temperature_cast :: "Scale \<Rightarrow> Quantity \<Rightarrow> compile_error + Quantity" where
  "temperature_cast R q =
     (case ConversionTraits (scale q) R of
        None \<Rightarrow> Inl UseOfDeletedFunction
      | Some Convert \<Rightarrow> Inr (Quantity R (Convert (amount q))))"

subsection \<open>Literal operators\<close>

text \<open>
  The literal operators take a \<open>long double\<close> and cast it to \<open>double\<close>.  The argument is
  given by its exact value; the cast rounds it.
\<close>

definition static_cast_double :: "rat \<Rightarrow> double" where
  "static_cast_double x = double_of_rat x"

definition operator_deg :: "rat \<Rightarrow> Quantity" where
  "operator_deg x = Quantity CELSIUS (static_cast_double x)"

definition operator_f :: "rat \<Rightarrow> Quantity" where
  "operator_f x = Quantity FAHRENHEIT (static_cast_double x)"

definition operator_k :: "rat \<Rightarrow> Quantity" where
  "operator_k x = Quantity KELVIN (static_cast_double x)"

subsection \<open>The self-check\<close>

text \<open>
  \<open>main\<close> is six blocks, each two casts and an \<open>assert\<close>, which is taken as compiled in.
  A block fails if an assertion fails; a block the compiler rejects is no program at all.
\<close>

datatype failure = IllFormed compile_error | AssertionFailed

definition well_formed :: "compile_error + 'a \<Rightarrow> ('a \<Rightarrow> failure + 'b) \<Rightarrow> failure + 'b" where
  "well_formed c k = (case c of Inl e \<Rightarrow> Inl (IllFormed e) | Inr x \<Rightarrow> k x)"

definition assert :: "bool \<Rightarrow> failure + unit" where
  "assert b = (if b then Inr () else Inl AssertionFailed)"

definition t1 :: Quantity where "t1 = operator_deg (365 / 10)"
definition t2 :: Quantity where "t2 = operator_f 79"
definition t3 :: Quantity where "t3 = operator_k 100"

definition block1 :: "failure + unit" where
  "block1 =
     well_formed (temperature_cast FAHRENHEIT t1) (\<lambda>tf.
     well_formed (temperature_cast CELSIUS tf) (\<lambda>tc.
     well_formed (operator_eq t1 tc) assert))"

definition block2 :: "failure + unit" where
  "block2 =
     well_formed (temperature_cast KELVIN t1) (\<lambda>tk.
     well_formed (temperature_cast CELSIUS tk) (\<lambda>tc.
     well_formed (operator_eq t1 tc) assert))"

definition block3 :: "failure + unit" where
  "block3 =
     well_formed (temperature_cast CELSIUS t2) (\<lambda>tc.
     well_formed (temperature_cast FAHRENHEIT tc) (\<lambda>tf.
     well_formed (operator_eq t2 tf) assert))"

definition block4 :: "failure + unit" where
  "block4 =
     well_formed (temperature_cast KELVIN t2) (\<lambda>tk.
     well_formed (temperature_cast FAHRENHEIT tk) (\<lambda>tf.
     well_formed (operator_eq t2 tf) assert))"

definition block5 :: "failure + unit" where
  "block5 =
     well_formed (temperature_cast CELSIUS t3) (\<lambda>tc.
     well_formed (temperature_cast KELVIN tc) (\<lambda>tk.
     well_formed (operator_eq t3 tk) assert))"

definition block6 :: "failure + unit" where
  "block6 =
     well_formed (temperature_cast FAHRENHEIT t3) (\<lambda>tf.
     well_formed (temperature_cast KELVIN tf) (\<lambda>tk.
     well_formed (operator_eq t3 tk) assert))"

text \<open>The blocks run in order; a failed assertion aborts; the end of \<open>main\<close> returns 0.\<close>

fun run_blocks :: "(failure + unit) list \<Rightarrow> failure + int" where
  "run_blocks [] = Inr 0"
| "run_blocks (b # bs) = (case b of Inl f \<Rightarrow> Inl f | Inr _ \<Rightarrow> run_blocks bs)"

definition main :: "failure + int" where
  "main = run_blocks [block1, block2, block3, block4, block5, block6]"

section \<open>Auxiliary notions for the proofs\<close>

text \<open>What flipping and clearing the sign bit do to the value a pattern stands for.\<close>

fun neg_fp :: "fp \<Rightarrow> fp" where
  "neg_fp NaN = NaN"
| "neg_fp (Inf s) = Inf (\<not> s)"
| "neg_fp (Fin s m) = Fin (\<not> s) m"

fun abs_fp :: "fp \<Rightarrow> fp" where
  "abs_fp NaN = NaN"
| "abs_fp (Inf s) = Inf False"
| "abs_fp (Fin s m) = Fin False m"

text \<open>
  The six formulas of \<open>ConversionTraits\<close> read in exact arithmetic: every operation is the
  one of the field, every literal its decimal value.
\<close>

fun exact_Convert :: "Scale \<Rightarrow> Scale \<Rightarrow> 'a::field_char_0 \<Rightarrow> 'a option" where
  "exact_Convert CELSIUS KELVIN v = Some (v + 27315 / 100)"
| "exact_Convert KELVIN CELSIUS v = Some (v - 27315 / 100)"
| "exact_Convert CELSIUS FAHRENHEIT v = Some ((v * 9) / 5 + 32)"
| "exact_Convert FAHRENHEIT CELSIUS v = Some ((v - 32) * 5 / 9)"
| "exact_Convert FAHRENHEIT KELVIN v = Some ((v + 45967 / 100) * 5 / 9)"
| "exact_Convert KELVIN FAHRENHEIT v = Some ((v * 9) / 5 - 45967 / 100)"
| "exact_Convert _ _ v = None"

text \<open>
  A finite \<open>double\<close> within \<open>\<delta>\<close> of a number \<open>t\<close> whose absolute value is at most \<open>N\<close>.
\<close>

definition approx :: "double \<Rightarrow> rat \<Rightarrow> rat \<Rightarrow> rat \<Rightarrow> bool" where
  "approx d t \<delta> N = (is_finite d \<and> \<bar>valof d - t\<bar> \<le> \<delta> \<and> \<bar>t\<bar> \<le> N)"

section \<open>Evaluating the model\<close>

text \<open>Rewrite rules that let the simplifier compute the operations on given bit patterns.\<close>

lemma floor_rat_numeral [simp]:
  "\<lfloor>numeral a / numeral b :: rat\<rfloor> = numeral a div numeral b"
  by (metis floor_divide_of_int_eq of_int_numeral)

lemma ceiling_rat_numeral [simp]:
  "\<lceil>numeral a / numeral b :: rat\<rceil> = - ((- numeral a) div numeral b)"
  unfolding ceiling_def
  by (metis floor_divide_of_int_eq of_int_numeral of_int_minus minus_divide_left)

lemma bit_length_numeral:
  "bit_length (numeral k) = 1 + bit_length (numeral k div 2)"
  "bit_length 0 = 0"
  "bit_length 1 = 1"
  by (subst bit_length.simps, simp)+

lemmas round_eval =
  double_literal_def double_of_int_def double_of_rat_def round_magnitude_def round_at_def
  ilog2_def bit_length_numeral pow2_def round_half_even_def nearest_even_def round_result_def

lemmas unpack_eval =
  unpack_def unpack_bits_def unpack_fields_def signed_def valof_def is_finite_def

lemmas op_eval =
  double_add_def double_sub_def double_mul_def double_div_def double_neg_def double_abs_def
  double_lt_def signed_zero_def signed_inf_def plus_zero_def minus_zero_def plus_inf_def
  minus_inf_def quiet_nan_def

lemmas cast_unfold =
  temperature_cast_def ConversionTraits.simps Quantity.sel option.case

text \<open>The constants of the program, as bit patterns.\<close>

lemma literal_273_15: "double_literal (27315 / 100) = 0x4071126666666666"
  by (simp add: round_eval)

lemma literal_459_67: "double_literal (45967 / 100) = 0x407CBAB851EB851F"
  by (simp add: round_eval)

lemma EPSILON_bits: "EPSILON = 0x3F50624DD2F1A9FC"
  by (simp add: EPSILON_def round_eval)

lemma int_constants:
  "double_of_int 5 = 0x4014000000000000"
  "double_of_int 9 = 0x4022000000000000"
  "double_of_int 32 = 0x4040000000000000"
  by (simp_all add: round_eval)

lemma sample_quantities:
  "t1 = Quantity CELSIUS 0x4042400000000000"
  "t2 = Quantity FAHRENHEIT 0x4053C00000000000"
  "t3 = Quantity KELVIN 0x4059000000000000"
  by (simp_all add: t1_def t2_def t3_def operator_deg_def operator_f_def operator_k_def
      static_cast_double_def round_eval)

section \<open>Signs\<close>

text \<open>Negation and absolute value act on the sign alone; rounding commutes with negation.\<close>

lemma uint_lt_64: "uint (d :: double) < 2 ^ 64"
  using uint_lt2p [of d] by simp

lemma unpack_fields_neg: "unpack_fields (\<not> s) e f = neg_fp (unpack_fields s e f)"
  by (simp add: unpack_fields_def)

lemma unpack_bits_sign:
  assumes "0 \<le> u" "u < 2 ^ 63"
  shows "unpack_bits (u + 2 ^ 63) = neg_fp (unpack_bits u)"
proof -
  have d: "(u + 2 ^ 63) div 2 ^ 52 = 2 ^ 11 + u div 2 ^ 52"
    using div_mult_self1 [of "2 ^ 52 :: int" u "2 ^ 11"] by simp
  have m: "(u + 2 ^ 63) mod 2 ^ 52 = u mod 2 ^ 52"
    using mod_mult_self1 [of u "2 ^ 11" "2 ^ 52"] by simp
  have s: "(2 ^ 63 \<le> u + 2 ^ 63) = (\<not> (2 ^ 63 \<le> u))"
    using assms by simp
  have "unpack_bits (u + 2 ^ 63) =
      unpack_fields (\<not> (2 ^ 63 \<le> u)) (u div 2 ^ 52 mod 2 ^ 11) (u mod 2 ^ 52)"
    unfolding unpack_bits_def d m s by (simp only: mod_add_self1)
  then show ?thesis
    by (simp only: unpack_bits_def unpack_fields_neg)
qed

lemma neg_fp_neg_fp [simp]: "neg_fp (neg_fp x) = x"
  by (cases x) simp_all

lemma abs_fp_neg_fp [simp]: "abs_fp (neg_fp x) = abs_fp x"
  by (cases x) simp_all

lemma abs_fp_positive: "0 \<le> u \<Longrightarrow> u < 2 ^ 63 \<Longrightarrow> abs_fp (unpack_bits u) = unpack_bits u"
  by (simp add: unpack_bits_def unpack_fields_def)

lemma unpack_double_neg: "unpack (double_neg d) = neg_fp (unpack d)"
proof (cases "2 ^ 63 \<le> uint d")
  case True
  define u where "u = uint d - 2 ^ 63"
  have u: "0 \<le> u" "u < 2 ^ 63" "uint d = u + 2 ^ 63"
    using True uint_lt_64 [of d] by (simp_all add: u_def)
  have "uint (d - 0x8000000000000000) = u"
    using True by (simp add: uint_sub_if' u_def)
  then have "unpack (double_neg d) = unpack_bits u"
    using True by (simp add: double_neg_def unpack_def)
  moreover have "unpack d = neg_fp (unpack_bits u)"
    unfolding unpack_def u(3) by (rule unpack_bits_sign [OF u(1,2)])
  ultimately show ?thesis by simp
next
  case False
  then have u: "0 \<le> uint d" "uint d < 2 ^ 63" by simp_all
  have "uint (d + 0x8000000000000000) = uint d + 2 ^ 63"
    using False by (simp add: uint_plus_if')
  then have "unpack (double_neg d) = unpack_bits (uint d + 2 ^ 63)"
    using False by (simp add: double_neg_def unpack_def)
  then show ?thesis
    unfolding unpack_def by (simp only: unpack_bits_sign [OF u])
qed

lemma unpack_double_abs: "unpack (double_abs d) = abs_fp (unpack d)"
proof (cases "2 ^ 63 \<le> uint d")
  case True
  define u where "u = uint d - 2 ^ 63"
  have u: "0 \<le> u" "u < 2 ^ 63" "uint d = u + 2 ^ 63"
    using True uint_lt_64 [of d] by (simp_all add: u_def)
  have "uint (d - 0x8000000000000000) = u"
    using True by (simp add: uint_sub_if' u_def)
  then have "unpack (double_abs d) = unpack_bits u"
    using True by (simp add: double_abs_def unpack_def)
  moreover have "unpack d = neg_fp (unpack_bits u)"
    unfolding unpack_def u(3) by (rule unpack_bits_sign [OF u(1,2)])
  ultimately show ?thesis by (simp add: abs_fp_positive [OF u(1,2)])
next
  case False
  then have u: "0 \<le> uint d" "uint d < 2 ^ 63" by simp_all
  show ?thesis
    using False by (simp add: double_abs_def unpack_def abs_fp_positive [OF u])
qed


lemma unpack_constants:
  "unpack quiet_nan = NaN"
  "unpack (signed_inf s) = Inf s"
  "unpack (signed_zero s) = Fin s 0"
  by (simp_all add: unpack_eval op_eval)

lemma unpack_EPSILON: "unpack EPSILON = Fin False (1152921504606847 / 1152921504606846976)"
  by (simp add: EPSILON_bits unpack_eval pow2_def)

lemma pow2_pos: "0 < pow2 k"
  by (simp add: pow2_def)

lemma round_half_even_nonneg: "0 \<le> y \<Longrightarrow> 0 \<le> round_half_even y"
  by (simp add: round_half_even_def nearest_even_def)

lemma round_magnitude_range:
  assumes "0 \<le> x"
  shows "0 \<le> round_magnitude x" and "round_magnitude x < 2 ^ 63"
proof -
  have "0 \<le> x / pow2 k" for k
    using assms pow2_pos [of k] by simp
  then have "0 \<le> round_half_even (x / pow2 k)" for k
    by (rule round_half_even_nonneg)
  then show "0 \<le> round_magnitude x"
    by (simp add: round_magnitude_def round_at_def add_nonneg_nonneg)
  show "round_magnitude x < 2 ^ 63"
    by (simp add: round_magnitude_def round_at_def min_less_iff_disj)
qed

lemma unpack_word_of_int_sign:
  assumes "0 \<le> m" "m < 2 ^ 63"
  shows "unpack (word_of_int (2 ^ 63 + m)) = neg_fp (unpack (word_of_int m))"
proof -
  have "uint (word_of_int m :: double) = m"
    using assms by (simp add: uint_word_of_int)
  moreover have "uint (word_of_int (2 ^ 63 + m) :: double) = m + 2 ^ 63"
  proof -
    have "(2 ^ 63 + m) mod 2 ^ LENGTH(64) = m + 2 ^ 63"
      using assms by simp
    then show ?thesis
      by (simp only: uint_word_of_int)
  qed
  ultimately show ?thesis
    unfolding unpack_def by (simp only: unpack_bits_sign [OF assms])
qed

lemma unpack_double_of_rat_minus:
  assumes "r \<noteq> 0"
  shows "unpack (double_of_rat (- r)) = neg_fp (unpack (double_of_rat r))"
proof (cases "0 < r")
  case True
  then show ?thesis
    using unpack_word_of_int_sign [OF round_magnitude_range [of r]]
    by (simp add: double_of_rat_def)
next
  case False
  with assms have "0 \<le> - r" "r < 0" by simp_all
  then show ?thesis
    using unpack_word_of_int_sign [OF round_magnitude_range [of "- r"]]
    by (simp add: double_of_rat_def)
qed

lemma signed_not: "signed (\<not> s) m = - signed s m"
  by (simp add: signed_def)

lemma sub_fp_swap:
  "abs_fp (unpack (add_fp B (neg_fp A))) = abs_fp (unpack (add_fp A (neg_fp B)))"
proof (cases A; cases B)
  fix s x t y
  assume A: "A = Fin s x" and B: "B = Fin t y"
  define r where "r = signed s x - signed t y"
  have "add_fp A (neg_fp B) = round_result (s \<and> \<not> t) r"
    by (simp add: A B r_def signed_not)
  moreover have "add_fp B (neg_fp A) = round_result (t \<and> \<not> s) (- r)"
    by (simp add: A B r_def signed_not)
  ultimately show ?thesis
    by (cases "r = 0")
      (simp_all add: round_result_def unpack_constants unpack_double_of_rat_minus)
qed (auto simp: unpack_constants)

lemma AreEqual_sym: "AreEqual a b = AreEqual b a"
  by (simp add: AreEqual_def double_lt_def double_sub_def double_add_def
      unpack_double_abs unpack_double_neg sub_fp_swap [of "unpack a" "unpack b"])

lemma AreEqual_refl:
  assumes "is_finite a"
  shows "AreEqual a a"
proof -
  from assms obtain s m where a: "unpack a = Fin s m"
    by (cases "unpack a") (simp_all add: is_finite_def)
  show ?thesis
    by (simp add: AreEqual_def double_lt_def double_sub_def double_add_def
        unpack_double_abs unpack_double_neg a signed_not round_result_def unpack_constants
        unpack_EPSILON signed_def)
qed

lemma AreEqual_not_refl:
  assumes "\<not> is_finite a"
  shows "\<not> AreEqual a a"
proof -
  from assms have "unpack a = NaN \<or> (\<exists>s. unpack a = Inf s)"
    by (cases "unpack a") (simp_all add: is_finite_def)
  then show ?thesis
    by (auto simp: AreEqual_def double_lt_def double_sub_def double_add_def
        unpack_double_abs unpack_double_neg unpack_constants)
qed

section \<open>Rounding error\<close>

text \<open>
  Below the overflow threshold \<open>double_of_rat\<close> yields a finite number that differs from
  its argument \<open>x\<close> by at most \<open>\<bar>x\<bar> / 2 ^ 53 + 1 / 2 ^ 1075\<close>: half a unit in the last place
  of a normal number, half the spacing of the subnormal ones.
\<close>

lemma pow2_powi: "pow2 k = 2 powi k"
  by (simp add: pow2_def power_int_def field_simps)

lemma bit_length_pos: "0 < n \<Longrightarrow> 0 < bit_length n"
proof -
  assume "0 < n"
  moreover have "0 \<le> bit_length m" for m
    by (induction m rule: bit_length.induct) (subst bit_length.simps, simp)
  ultimately show ?thesis
    by (subst bit_length.simps) (simp add: add_pos_nonneg)
qed

lemma bit_length_bounds:
  "0 < n \<Longrightarrow> 2 ^ nat (bit_length n - 1) \<le> n \<and> n < 2 ^ nat (bit_length n)"
proof (induction n rule: bit_length.induct)
  case (1 n)
  show ?case
  proof (cases "n = 1")
    case True
    have "bit_length 1 = 1"
      by (simp add: bit_length_numeral)
    with True show ?thesis by simp
  next
    case False
    with "1.prems" have m: "0 < n div 2" by simp
    define L where "L = bit_length (n div 2)"
    have L: "0 < L" unfolding L_def by (rule bit_length_pos [OF m])
    have IH: "2 ^ nat (L - 1) \<le> n div 2" "n div 2 < 2 ^ nat L"
      using "1.IH" m "1.prems" by (simp_all add: L_def)
    have bl: "bit_length n = 1 + L"
      using "1.prems" by (subst bit_length.simps) (simp add: L_def)
    have p: "(2::int) ^ nat L = 2 * 2 ^ nat (L - 1)"
      using L by (metis Suc_nat_eq_nat_zadd1 add.commute diff_add_cancel power_Suc zle_diff1_eq)
    have q: "(2::int) ^ nat (1 + L) = 2 * 2 ^ nat L"
      using L by (simp add: nat_add_distrib)
    have "2 * (n div 2) \<le> n" "n < 2 * (n div 2) + 2" by simp_all
    with IH show ?thesis
      unfolding bl using p q by simp
  qed
qed

lemma ilog2_bounds:
  assumes "0 < x"
  shows "2 powi (ilog2 x) \<le> x" and "x < 2 powi (ilog2 x + 1)"
proof -
  have "2 powi (ilog2 x) \<le> x \<and> x < 2 powi (ilog2 x + 1)"
  proof (cases "1 \<le> x")
    case True
    define n where "n = \<lfloor>x\<rfloor>"
    define L where "L = bit_length n"
    have n: "0 < n" using True by (simp add: n_def)
    have L: "0 < L" unfolding L_def by (rule bit_length_pos [OF n])
    have b: "2 ^ nat (L - 1) \<le> n" "n < 2 ^ nat L"
      using bit_length_bounds [OF n] by (simp_all add: L_def)
    have e: "ilog2 x = L - 1"
      using True by (simp add: ilog2_def L_def n_def)
    have "(of_int (2 ^ nat (L - 1)) :: rat) \<le> of_int n"
      using b(1) by (simp only: of_int_le_iff)
    also have "\<dots> \<le> x" by (simp add: n_def)
    finally have lo: "2 powi (L - 1) \<le> x"
      using L by (simp add: power_int_def)
    have "n + 1 \<le> 2 ^ nat L" using b(2) by simp
    then have "(of_int (n + 1) :: rat) \<le> of_int (2 ^ nat L)"
      by (simp only: of_int_le_iff)
    moreover have "x < of_int (n + 1)" unfolding n_def by linarith
    ultimately have "x < 2 powi L"
      using L by (simp add: power_int_def)
    with lo show ?thesis by (simp add: e)
  next
    case False
    define y where "y = 1 / x"
    define m where "m = \<lceil>y\<rceil>"
    define L where "L = bit_length (m - 1)"
    have y: "1 < y" using False assms by (simp add: y_def)
    then have m: "0 < m - 1" by (simp add: m_def)
    have L: "0 < L" unfolding L_def by (rule bit_length_pos [OF m])
    have b: "2 ^ nat (L - 1) \<le> m - 1" "m - 1 < 2 ^ nat L"
      using bit_length_bounds [OF m] by (simp_all add: L_def)
    have e: "ilog2 x = - L"
      using False by (simp add: ilog2_def L_def m_def y_def)
    have "(of_int (2 ^ nat (L - 1)) :: rat) \<le> of_int (m - 1)"
      using b(1) by (simp only: of_int_le_iff)
    also have "\<dots> < y" unfolding m_def by linarith
    finally have lo: "2 ^ nat (L - 1) < y" by simp
    have "m \<le> 2 ^ nat L" using b(2) by simp
    then have "(of_int m :: rat) \<le> of_int (2 ^ nat L)"
      by (simp only: of_int_le_iff)
    then have "(of_int m :: rat) \<le> 2 ^ nat L" by simp
    moreover have "y \<le> of_int m" by (simp add: m_def)
    ultimately have hi: "y \<le> 2 ^ nat L" by linarith
    have x: "x = 1 / y" using assms by (simp add: y_def)
    have "1 / 2 ^ nat L \<le> x"
      unfolding x using hi y by (simp add: field_simps)
    moreover have "x < 1 / 2 ^ nat (L - 1)"
      unfolding x using lo y by (simp add: field_simps)
    moreover have "(2::rat) powi (- L) = 1 / 2 ^ nat L"
      using L by (simp add: power_int_def field_simps)
    moreover have "(2::rat) powi (- L + 1) = 1 / 2 ^ nat (L - 1)"
    proof -
      have "(2::rat) powi (- L + 1) = 2 powi (- (L - 1))" by simp
      also have "\<dots> = 1 / 2 powi (L - 1)" by (rule power_int_minus_divide)
      also have "(2::rat) powi (L - 1) = 2 ^ nat (L - 1)"
        using L by (intro power_int_nonneg_exp) simp
      finally show ?thesis .
    qed
    ultimately show ?thesis by (simp add: e)
  qed
  then show "2 powi (ilog2 x) \<le> x" and "x < 2 powi (ilog2 x + 1)" by simp_all
qed

lemma round_half_even_close: "\<bar>of_int (round_half_even y) - y\<bar> \<le> 1 / 2"
proof -
  have "of_int \<lfloor>y\<rfloor> \<le> y" "y < of_int \<lfloor>y\<rfloor> + 1" by linarith+
  then show ?thesis
    by (auto simp: round_half_even_def nearest_even_def)
qed

lemma round_half_even_ge: "of_int a \<le> y \<Longrightarrow> a \<le> round_half_even y"
proof -
  assume "of_int a \<le> y"
  then have "a \<le> \<lfloor>y\<rfloor>" by (simp add: le_floor_iff)
  then show ?thesis by (auto simp: round_half_even_def nearest_even_def)
qed

lemma round_half_even_le: "y \<le> of_int b \<Longrightarrow> round_half_even y \<le> b"
proof -
  assume y: "y \<le> of_int b"
  show ?thesis
  proof (cases "y = of_int b")
    case True
    then show ?thesis by (simp add: round_half_even_def nearest_even_def)
  next
    case False
    with y have "y < of_int b" by simp
    then have "\<lfloor>y\<rfloor> < b" by (simp add: floor_less_iff)
    then show ?thesis by (auto simp: round_half_even_def nearest_even_def)
  qed
qed

text \<open>Decoding exponent field and fraction written as one sum.\<close>

lemma unpack_bits_sum:
  assumes k: "0 \<le> k" and n: "0 \<le> n" "n \<le> 2 ^ 53"
    and normal: "k = 0 \<or> 2 ^ 52 \<le> n"
    and below: "k * 2 ^ 52 + n < 2047 * 2 ^ 52"
  shows "unpack_bits (k * 2 ^ 52 + n) = Fin False (of_int n * 2 powi (k - 1074))"
proof -
  define u where "u = k * 2 ^ 52 + n"
  have sign: "\<not> 2 ^ 63 \<le> u"
    using below by (simp add: u_def)
  consider "n < 2 ^ 52" | "2 ^ 52 \<le> n" "n < 2 ^ 53" | "n = 2 ^ 53"
    using n by linarith
  then have "unpack_fields False (u div 2 ^ 52 mod 2 ^ 11) (u mod 2 ^ 52) =
      Fin False (of_int n * 2 powi (k - 1074))"
  proof cases
    case 1
    with normal have k0: "k = 0" by simp
    have "u div 2 ^ 52 = 0" "u mod 2 ^ 52 = n"
      using 1 n k0 by (simp_all add: u_def)
    then show ?thesis
      by (simp add: unpack_fields_def k0 pow2_powi)
  next
    case 2
    define f where "f = n - 2 ^ 52"
    have f: "0 \<le> f" "f < 2 ^ 52" using 2 by (simp_all add: f_def)
    have u: "u = f + (k + 1) * 2 ^ 52" by (simp add: u_def f_def algebra_simps)
    have d: "u div 2 ^ 52 = k + 1"
      unfolding u using f div_mult_self1 [of "2 ^ 52 :: int" f "k + 1"]
      by (simp add: div_pos_pos_trivial)
    have m: "u mod 2 ^ 52 = f"
    proof -
      have "(f + (k + 1) * 2 ^ 52) mod 2 ^ 52 = f mod 2 ^ 52"
        by (rule mod_mult_self1)
      also have "\<dots> = f"
        using f by (rule mod_pos_pos_trivial)
      finally show ?thesis unfolding u .
    qed
    have k1: "k + 1 < 2047" using below 2 by simp
    then have e: "(k + 1) mod 2 ^ 11 = k + 1"
      using k by (simp add: mod_pos_pos_trivial)
    have "(2::rat) powi (k + 1 - 1075) = 2 powi (k - 1074)" by simp
    then show ?thesis
      unfolding d m e using k k1
      by (simp add: unpack_fields_def pow2_powi f_def)
  next
    case 3
    have u: "u = 0 + (k + 2) * 2 ^ 52" by (simp add: u_def 3 algebra_simps)
    have d: "u div 2 ^ 52 = k + 2"
      unfolding u using div_mult_self1 [of "2 ^ 52 :: int" 0 "k + 2"] by simp
    have m: "u mod 2 ^ 52 = 0"
      unfolding u by simp
    have k2: "k + 2 < 2047" using below 3 by simp
    then have e: "(k + 2) mod 2 ^ 11 = k + 2"
      using k by (simp add: mod_pos_pos_trivial)
    have "(2::rat) powi (k - 1073) = 2 powi (k - 1074 + 1)" by (simp add: algebra_simps)
    also have "\<dots> = 2 powi (k - 1074) * 2"
      by (subst power_int_add) simp_all
    finally have p: "(2::rat) powi (k - 1073) = 2 * 2 powi (k - 1074)" by simp
    show ?thesis
      unfolding d m e using k k2
      by (simp add: unpack_fields_def pow2_powi p 3)
  qed
  with sign show ?thesis
    by (simp add: unpack_bits_def u_def)
qed

lemma round_magnitude_decode:
  assumes x: "0 < x" "x < 2 ^ 1023"
  shows "\<exists>m. unpack_bits (round_magnitude x) = Fin False m \<and>
             \<bar>m - x\<bar> \<le> x / 2 ^ 53 + 1 / 2 ^ 1075"
proof -
  define e0 where "e0 = ilog2 x"
  define e where "e = max e0 (- 1022)"
  define q :: rat where "q = 2 powi (e - 52)"
  define n where "n = round_half_even (x / q)"
  define k where "k = e + 1022"
  have q: "0 < q" by (simp add: q_def)
  have lo: "2 powi e0 \<le> x" and hi: "x < 2 powi (e0 + 1)"
    using ilog2_bounds [OF x(1)] by (simp_all add: e0_def)
  have e0: "e0 \<le> 1022"
  proof (rule ccontr)
    assume "\<not> e0 \<le> 1022"
    then have "(2::rat) powi 1023 \<le> 2 powi e0"
      by (intro power_int_increasing) simp_all
    with lo x(2) show False by simp
  qed
  have k: "0 \<le> k" "k \<le> 2044" using e0 by (simp_all add: k_def e_def)
  have q52: "q * 2 ^ 52 = 2 powi e"
  proof -
    have "(2::rat) powi e = 2 powi (e - 52 + 52)" by simp
    also have "\<dots> = 2 powi (e - 52) * 2 powi 52"
      by (rule power_int_add) simp
    finally show ?thesis by (simp add: q_def)
  qed
  have q53: "q * 2 ^ 53 = 2 powi (e + 1)"
  proof -
    have "(2::rat) powi (e + 1) = 2 powi (e - 52 + 53)" by (simp add: add.commute)
    also have "\<dots> = 2 powi (e - 52) * 2 powi 53"
      by (rule power_int_add) simp
    finally show ?thesis by (simp add: q_def)
  qed
  have n0: "0 \<le> n"
    unfolding n_def using x(1) q by (intro round_half_even_ge) simp
  have "(2::rat) powi (e0 + 1) \<le> 2 powi (e + 1)"
    by (intro power_int_increasing) (simp_all add: e_def)
  with hi have "x < q * 2 ^ 53" unfolding q53 by linarith
  then have "x / q \<le> of_int (2 ^ 53)"
    using q by (simp add: field_simps)
  then have n53: "n \<le> 2 ^ 53"
    unfolding n_def by (rule round_half_even_le)
  have normal: "k = 0 \<or> 2 ^ 52 \<le> n"
  proof (cases "- 1022 \<le> e0")
    case True
    then have "e = e0" by (simp add: e_def)
    with lo have "q * 2 ^ 52 \<le> x" unfolding q52 by simp
    then have "of_int (2 ^ 52) \<le> x / q"
      using q by (simp add: field_simps)
    then have "2 ^ 52 \<le> n"
      unfolding n_def by (rule round_half_even_ge)
    then show ?thesis ..
  next
    case False
    then show ?thesis by (simp add: k_def e_def)
  qed
  have below: "k * 2 ^ 52 + n < 2047 * 2 ^ 52"
    using k n53 by simp
  have "round_magnitude x = k * 2 ^ 52 + n"
    using x(1) below
    by (simp add: round_magnitude_def round_at_def pow2_powi e_def e0_def k_def n_def q_def)
  moreover have "unpack_bits (k * 2 ^ 52 + n) = Fin False (of_int n * 2 powi (k - 1074))"
    using k(1) n0 n53 normal below by (rule unpack_bits_sum)
  moreover have "(2::rat) powi (k - 1074) = q"
    by (simp add: k_def q_def)
  ultimately have dec: "unpack_bits (round_magnitude x) = Fin False (of_int n * q)"
    by simp
  have "\<bar>of_int n - x / q\<bar> \<le> 1 / 2"
    unfolding n_def by (rule round_half_even_close)
  then have "q * \<bar>of_int n - x / q\<bar> \<le> q * (1 / 2)"
    using q by (intro mult_left_mono) simp_all
  moreover have "q * \<bar>of_int n - x / q\<bar> = \<bar>of_int n * q - x\<bar>"
  proof -
    have "of_int n * q - x = q * (of_int n - x / q)"
      using q by (simp add: field_simps)
    then have "\<bar>of_int n * q - x\<bar> = \<bar>q\<bar> * \<bar>of_int n - x / q\<bar>"
      by (simp only: abs_mult)
    then show ?thesis using q by simp
  qed
  ultimately have err: "\<bar>of_int n * q - x\<bar> \<le> q / 2" by simp
  have "q / 2 \<le> x / 2 ^ 53 + 1 / 2 ^ 1075"
  proof (cases "- 1022 \<le> e0")
    case True
    then have "e = e0" by (simp add: e_def)
    with lo have "q * 2 ^ 52 \<le> x" unfolding q52 by simp
    then have "q / 2 \<le> x / 2 ^ 53" by simp
    then show ?thesis by simp
  next
    case False
    then have "e = - 1022" by (simp add: e_def)
    then have "q = 1 / 2 ^ 1074"
      by (simp add: q_def power_int_minus_divide)
    then have "q / 2 = 1 / 2 ^ 1075" by simp
    moreover have "0 \<le> x / 2 ^ 53" using x(1) by simp
    ultimately show ?thesis by linarith
  qed
  with err dec show ?thesis by (intro exI [of _ "of_int n * q"]) simp
qed

lemma unpack_double_of_rat:
  assumes "x \<noteq> 0" "\<bar>x\<bar> < 2 ^ 1023"
  shows "\<exists>m. unpack (double_of_rat x) = Fin (x < 0) m \<and>
             \<bar>m - \<bar>x\<bar>\<bar> \<le> \<bar>x\<bar> / 2 ^ 53 + 1 / 2 ^ 1075"
proof -
  define M where "M = round_magnitude \<bar>x\<bar>"
  have ax: "0 < \<bar>x\<bar>" using assms(1) by simp
  from round_magnitude_decode [OF ax assms(2)]
  obtain m where m: "unpack_bits M = Fin False m"
      "\<bar>m - \<bar>x\<bar>\<bar> \<le> \<bar>x\<bar> / 2 ^ 53 + 1 / 2 ^ 1075"
    by (auto simp: M_def)
  have M: "0 \<le> M" "M < 2 ^ 63"
    using round_magnitude_range [of "\<bar>x\<bar>"] by (simp_all add: M_def)
  then have "uint (word_of_int M :: double) = M"
    by (simp add: uint_word_of_int)
  then have pos: "unpack (word_of_int M) = Fin False m"
    by (simp add: unpack_def m(1))
  show ?thesis
  proof (cases "x < 0")
    case True
    then have "double_of_rat x = word_of_int (2 ^ 63 + M)"
      by (simp add: double_of_rat_def M_def)
    then have "unpack (double_of_rat x) = Fin True m"
      using unpack_word_of_int_sign [OF M] pos by simp
    with True m(2) show ?thesis by simp
  next
    case False
    then have "double_of_rat x = word_of_int M"
      by (simp add: double_of_rat_def M_def)
    with False pos m(2) show ?thesis by simp
  qed
qed

lemma round_result_close:
  assumes "\<bar>r\<bar> < 2 ^ 1023"
  shows "is_finite (round_result z r)"
    and "\<bar>valof (round_result z r) - r\<bar> \<le> \<bar>r\<bar> / 2 ^ 53 + 1 / 2 ^ 1075"
proof -
  have "is_finite (round_result z r) \<and>
      \<bar>valof (round_result z r) - r\<bar> \<le> \<bar>r\<bar> / 2 ^ 53 + 1 / 2 ^ 1075"
  proof (cases "r = 0")
    case True
    then show ?thesis
      by (simp add: round_result_def is_finite_def valof_def unpack_constants signed_def)
  next
    case False
    from unpack_double_of_rat [OF False assms]
    obtain m where m: "unpack (double_of_rat r) = Fin (r < 0) m"
        "\<bar>m - \<bar>r\<bar>\<bar> \<le> \<bar>r\<bar> / 2 ^ 53 + 1 / 2 ^ 1075"
      by auto
    have "\<bar>signed (r < 0) m - r\<bar> = \<bar>m - \<bar>r\<bar>\<bar>"
      by (cases "r < 0") (simp_all add: signed_def abs_if)
    with m False show ?thesis
      by (simp add: round_result_def is_finite_def valof_def)
  qed
  then show "is_finite (round_result z r)"
    and "\<bar>valof (round_result z r) - r\<bar> \<le> \<bar>r\<bar> / 2 ^ 53 + 1 / 2 ^ 1075"
    by simp_all
qed

lemma finite_unpack:
  assumes "is_finite a"
  obtains s m where "unpack a = Fin s m" "valof a = signed s m"
  using assms by (cases "unpack a") (simp_all add: is_finite_def valof_def)

lemma finite_double_neg:
  "is_finite (double_neg a) = is_finite a" "is_finite a \<Longrightarrow> valof (double_neg a) = - valof a"
  by (cases "unpack a"; simp add: is_finite_def valof_def unpack_double_neg signed_def)+

lemma double_add_finite:
  assumes "is_finite a" "is_finite b"
  shows "\<exists>z. double_add a b = round_result z (valof a + valof b)"
proof -
  from assms(1) obtain s x where a: "unpack a = Fin s x" "valof a = signed s x"
    by (rule finite_unpack)
  from assms(2) obtain t y where b: "unpack b = Fin t y" "valof b = signed t y"
    by (rule finite_unpack)
  show ?thesis by (auto simp: double_add_def a b)
qed

lemma double_mul_finite:
  assumes "is_finite a" "is_finite b"
  shows "\<exists>z. double_mul a b = round_result z (valof a * valof b)"
proof -
  from assms(1) obtain s x where a: "unpack a = Fin s x" "valof a = signed s x"
    by (rule finite_unpack)
  from assms(2) obtain t y where b: "unpack b = Fin t y" "valof b = signed t y"
    by (rule finite_unpack)
  show ?thesis by (auto simp: double_mul_def a b)
qed

lemma double_div_finite:
  assumes "is_finite a" "is_finite b" "valof b \<noteq> 0"
  shows "\<exists>z. double_div a b = round_result z (valof a / valof b)"
proof -
  from assms(1) obtain s x where a: "unpack a = Fin s x" "valof a = signed s x"
    by (rule finite_unpack)
  from assms(2) obtain t y where b: "unpack b = Fin t y" "valof b = signed t y"
    by (rule finite_unpack)
  from assms(3) b have "y \<noteq> 0" by (cases t) (auto simp: signed_def)
  then show ?thesis by (auto simp: double_div_def a b)
qed

text \<open>
  One operation with a constant, on an operand that is within \<open>\<delta>\<close> of a number \<open>t\<close> of
  absolute value at most \<open>N\<close>.
\<close>

lemma approx_round:
  assumes "\<bar>r - t'\<bar> \<le> \<epsilon>" "\<bar>t'\<bar> \<le> N'" "N' + \<epsilon> \<le> 2 ^ 1022"
    and "\<epsilon> + (N' + \<epsilon>) / 2 ^ 53 + 1 / 2 ^ 1075 \<le> \<delta>'"
  shows "approx (round_result z r) t' \<delta>' N'"
proof -
  have r: "\<bar>r\<bar> \<le> N' + \<epsilon>" using assms(1,2) by linarith
  then have "\<bar>r\<bar> < 2 ^ 1023" using assms(3) by simp
  from round_result_close [OF this, of z]
  have f: "is_finite (round_result z r)"
    and c: "\<bar>valof (round_result z r) - r\<bar> \<le> \<bar>r\<bar> / 2 ^ 53 + 1 / 2 ^ 1075"
    by simp_all
  have "\<bar>r\<bar> / 2 ^ 53 \<le> (N' + \<epsilon>) / 2 ^ 53" using r by simp
  with c assms(1,4) have "\<bar>valof (round_result z r) - t'\<bar> \<le> \<delta>'" by linarith
  with f assms(2) show ?thesis by (simp add: approx_def)
qed

lemma approx_add:
  assumes "approx a t \<delta> N" "is_finite c" "valof c = k"
    and "N + \<bar>k\<bar> \<le> N'" "N' + \<delta> \<le> 2 ^ 1022"
    and "\<delta> + (N' + \<delta>) / 2 ^ 53 + 1 / 2 ^ 1075 \<le> \<delta>'"
  shows "approx (double_add a c) (t + k) \<delta>' N'"
proof -
  from assms(1) have a: "is_finite a" "\<bar>valof a - t\<bar> \<le> \<delta>" "\<bar>t\<bar> \<le> N"
    by (simp_all add: approx_def)
  obtain z where "double_add a c = round_result z (valof a + valof c)"
    using double_add_finite [OF a(1) assms(2)] by auto
  moreover have "\<bar>valof a + valof c - (t + k)\<bar> \<le> \<delta>" using a(2) assms(3) by simp
  moreover have "\<bar>t + k\<bar> \<le> N'" using a(3) assms(4) by linarith
  ultimately show ?thesis
    using approx_round [OF _ _ assms(5,6)] by simp
qed

lemma approx_sub:
  assumes "approx a t \<delta> N" "is_finite c" "valof c = k"
    and "N + \<bar>k\<bar> \<le> N'" "N' + \<delta> \<le> 2 ^ 1022"
    and "\<delta> + (N' + \<delta>) / 2 ^ 53 + 1 / 2 ^ 1075 \<le> \<delta>'"
  shows "approx (double_sub a c) (t - k) \<delta>' N'"
  unfolding double_sub_def
  using approx_add [OF assms(1), of "double_neg c" "- k" N' \<delta>'] assms(2-)
  by (simp add: finite_double_neg)

lemma approx_mul:
  assumes "approx a t \<delta> N" "is_finite c" "valof c = k" "0 \<le> k"
    and "N * k \<le> N'" "N' + \<delta> * k \<le> 2 ^ 1022"
    and "\<delta> * k + (N' + \<delta> * k) / 2 ^ 53 + 1 / 2 ^ 1075 \<le> \<delta>'"
  shows "approx (double_mul a c) (t * k) \<delta>' N'"
proof -
  from assms(1) have a: "is_finite a" "\<bar>valof a - t\<bar> \<le> \<delta>" "\<bar>t\<bar> \<le> N"
    by (simp_all add: approx_def)
  obtain z where "double_mul a c = round_result z (valof a * valof c)"
    using double_mul_finite [OF a(1) assms(2)] by auto
  moreover have "\<bar>valof a * valof c - t * k\<bar> \<le> \<delta> * k"
  proof -
    have "valof a * valof c - t * k = (valof a - t) * k"
      by (simp add: assms(3) algebra_simps)
    then have "\<bar>valof a * valof c - t * k\<bar> = \<bar>valof a - t\<bar> * k"
      using assms(4) by (simp add: abs_mult)
    also have "\<dots> \<le> \<delta> * k"
      using a(2) assms(4) by (rule mult_right_mono)
    finally show ?thesis .
  qed
  moreover have "\<bar>t * k\<bar> \<le> N'"
  proof -
    have "\<bar>t * k\<bar> = \<bar>t\<bar> * k" using assms(4) by (simp add: abs_mult)
    also have "\<dots> \<le> N * k" using a(3) assms(4) by (rule mult_right_mono)
    finally show ?thesis using assms(5) by simp
  qed
  ultimately show ?thesis
    using approx_round [OF _ _ assms(6,7)] by simp
qed

lemma approx_div:
  assumes "approx a t \<delta> N" "is_finite c" "valof c = k" "0 < k"
    and "N / k \<le> N'" "N' + \<delta> / k \<le> 2 ^ 1022"
    and "\<delta> / k + (N' + \<delta> / k) / 2 ^ 53 + 1 / 2 ^ 1075 \<le> \<delta>'"
  shows "approx (double_div a c) (t / k) \<delta>' N'"
proof -
  from assms(1) have a: "is_finite a" "\<bar>valof a - t\<bar> \<le> \<delta>" "\<bar>t\<bar> \<le> N"
    by (simp_all add: approx_def)
  have "valof c \<noteq> 0" using assms(3,4) by simp
  then obtain z where "double_div a c = round_result z (valof a / valof c)"
    using double_div_finite [OF a(1) assms(2)] by auto
  moreover have "\<bar>valof a / valof c - t / k\<bar> \<le> \<delta> / k"
  proof -
    have "valof a / valof c - t / k = (valof a - t) / k"
      by (simp add: assms(3) diff_divide_distrib)
    then have "\<bar>valof a / valof c - t / k\<bar> = \<bar>valof a - t\<bar> / k"
      using assms(4) by (simp add: abs_divide)
    also have "\<dots> \<le> \<delta> / k"
      using a(2) assms(4) by (simp add: divide_right_mono)
    finally show ?thesis .
  qed
  moreover have "\<bar>t / k\<bar> \<le> N'"
  proof -
    have "\<bar>t / k\<bar> = \<bar>t\<bar> / k" using assms(4) by (simp add: abs_divide)
    also have "\<dots> \<le> N / k" using a(3) assms(4) by (simp add: divide_right_mono)
    finally show ?thesis using assms(5) by simp
  qed
  ultimately show ?thesis
    using approx_round [OF _ _ assms(6,7)] by simp
qed

lemma AreEqual_close:
  assumes "is_finite a" "approx b (valof a) \<delta> N" "\<delta> \<le> 99 / 100000"
  shows "AreEqual a b"
proof -
  from assms(2) have b: "is_finite b" "\<bar>valof b - valof a\<bar> \<le> \<delta>"
    by (simp_all add: approx_def)
  define r where "r = valof a - valof b"
  have r: "\<bar>r\<bar> \<le> 99 / 100000" using b(2) assms(3) by (simp add: r_def abs_minus_commute)
  obtain z where d: "double_sub a b = round_result z r"
    using double_add_finite [of a "double_neg b"] assms(1) b(1)
    by (auto simp: double_sub_def finite_double_neg r_def)
  have "\<bar>r\<bar> < 2 ^ 1023" using r by simp
  from round_result_close [OF this, of z]
  have f: "is_finite (round_result z r)"
    and c: "\<bar>valof (round_result z r) - r\<bar> \<le> \<bar>r\<bar> / 2 ^ 53 + 1 / 2 ^ 1075"
    by simp_all
  from f obtain s m where u: "unpack (round_result z r) = Fin s m"
      "valof (round_result z r) = signed s m"
    by (rule finite_unpack)
  have "\<bar>signed s m\<bar> \<le> \<bar>r\<bar> + \<bar>r\<bar> / 2 ^ 53 + 1 / 2 ^ 1075"
    using c u(2) by linarith
  moreover have "\<bar>r\<bar> / 2 ^ 53 \<le> (99 / 100000) / 2 ^ 53" using r by simp
  ultimately have "\<bar>signed s m\<bar> < 1152921504606847 / 1152921504606846976"
    using r by simp
  moreover have "signed False m \<le> \<bar>signed s m\<bar>" by (simp add: signed_def)
  ultimately have "signed False m < 1152921504606847 / 1152921504606846976" by linarith
  then show ?thesis
    by (simp add: AreEqual_def double_lt_def unpack_double_abs d u(1) unpack_EPSILON
        signed_def)
qed

section \<open>The operators\<close>

text \<open>
  C3.  For two quantities of one scale, \<open>a == b\<close> is the test
  \<open>abs(a - b) < EPSILON\<close> on the raw values, where \<open>EPSILON\<close> is the literal \<open>0.001\<close>,
  and \<open>a != b\<close> is its negation.
\<close>

theorem operator_eq_is_tolerance_test:
  "operator_eq (Quantity S x) (Quantity S y) =
     Inr (double_lt (double_abs (double_sub x y)) EPSILON) \<and>
   operator_ne (Quantity S x) (Quantity S y) =
     Inr (\<not> double_lt (double_abs (double_sub x y)) EPSILON) \<and>
   EPSILON = double_literal (1 / 1000)"
  by (simp add: operator_eq_def operator_ne_def AreEqual_def EPSILON_def)

text \<open>A call of \<open>operator<\<close> that returns has operands of two scales: it was never compiled.\<close>

lemma operator_lt_returns:
  assumes "operator_lt lhs rhs = Some r"
  shows "scale lhs \<noteq> scale rhs"
  by (rule operator_lt.raw_induct
        [where P = "\<lambda>lhs rhs r. scale lhs \<noteq> scale rhs", OF _ assms])
     (auto split: if_splits)

text \<open>
  C4.  On two quantities of one scale, \<open>operator<\<close> calls itself on the same operands and
  never returns; neither do the operators greater, less-or-equal and greater-or-equal, which call it.
\<close>

theorem ordering_operators_diverge:
  "operator_lt (Quantity S x) (Quantity S y) = None \<and>
   operator_gt (Quantity S x) (Quantity S y) = None \<and>
   operator_le (Quantity S x) (Quantity S y) = None \<and>
   operator_ge (Quantity S x) (Quantity S y) = None"
proof -
  have lt: "operator_lt (Quantity S a) (Quantity S b) = None" for a b
  proof (cases "operator_lt (Quantity S a) (Quantity S b)")
    case (Some r)
    from operator_lt_returns [OF this] show ?thesis by simp
  qed simp
  show ?thesis
    by (simp add: operator_gt_def operator_le_def operator_ge_def lt)
qed

text \<open>
  C7.  The sum and the difference of two quantities of scale \<open>S\<close> are new quantities of
  scale \<open>S\<close> whose raw values are the \<open>double\<close> sum and difference of the operands' raw
  values.  The operands are values; nothing is written to them.
\<close>

theorem plus_minus_on_raw_values:
  "operator_plus (Quantity S x) (Quantity S y) = Inr (Quantity S (double_add x y)) \<and>
   operator_minus (Quantity S x) (Quantity S y) = Inr (Quantity S (double_sub x y))"
  by (simp add: operator_plus_def operator_minus_def)

section \<open>The conversions\<close>

text \<open>
  C1.  For each of the six ordered pairs of distinct scales \<open>temperature_cast\<close> applies the
  listed formula to the raw value, in \<open>double\<close> arithmetic, and tags the result with the
  target scale.
\<close>

theorem temperature_cast_formulas:
  "temperature_cast KELVIN (Quantity CELSIUS v) =
     Inr (Quantity KELVIN (double_add v (double_literal (27315 / 100)))) \<and>
   temperature_cast CELSIUS (Quantity KELVIN v) =
     Inr (Quantity CELSIUS (double_sub v (double_literal (27315 / 100)))) \<and>
   temperature_cast FAHRENHEIT (Quantity CELSIUS v) =
     Inr (Quantity FAHRENHEIT
       (double_add (double_div (double_mul v (double_of_int 9)) (double_of_int 5))
          (double_of_int 32))) \<and>
   temperature_cast CELSIUS (Quantity FAHRENHEIT v) =
     Inr (Quantity CELSIUS
       (double_div (double_mul (double_sub v (double_of_int 32)) (double_of_int 5))
          (double_of_int 9))) \<and>
   temperature_cast KELVIN (Quantity FAHRENHEIT v) =
     Inr (Quantity KELVIN
       (double_div (double_mul (double_add v (double_literal (45967 / 100))) (double_of_int 5))
          (double_of_int 9))) \<and>
   temperature_cast FAHRENHEIT (Quantity KELVIN v) =
     Inr (Quantity FAHRENHEIT
       (double_sub (double_div (double_mul v (double_of_int 9)) (double_of_int 5))
          (double_literal (45967 / 100))))"
  by (simp only: cast_unfold simp_thms)

text \<open>
  C8.  A conversion exists for exactly the six ordered pairs of distinct scales.  A cast
  from a scale to itself is rejected by the compiler, whatever the value: it names the
  deleted \<open>Convert\<close> of the primary template.
\<close>

theorem conversions_are_the_six_pairs:
  "{(S, R). ConversionTraits S R \<noteq> None} =
     {(CELSIUS, KELVIN), (KELVIN, CELSIUS), (CELSIUS, FAHRENHEIT), (FAHRENHEIT, CELSIUS),
      (FAHRENHEIT, KELVIN), (KELVIN, FAHRENHEIT)} \<and>
   (ConversionTraits S' R' = None) = (S' = R') \<and>
   temperature_cast S' (Quantity S' v) = Inl UseOfDeletedFunction \<and>
   (temperature_cast R' q = Inl UseOfDeletedFunction) = (scale q = R')"
proof -
  have none: "(ConversionTraits A B = None) = (A = B)" for A B
    by (cases A; cases B) simp_all
  have "{(S, R). ConversionTraits S R \<noteq> None} =
     {(CELSIUS, KELVIN), (KELVIN, CELSIUS), (CELSIUS, FAHRENHEIT), (FAHRENHEIT, CELSIUS),
      (FAHRENHEIT, KELVIN), (KELVIN, FAHRENHEIT)}"
  proof (rule set_eqI)
    fix p :: "Scale \<times> Scale"
    obtain A B where p: "p = (A, B)" by (cases p)
    show "p \<in> {(S, R). ConversionTraits S R \<noteq> None} \<longleftrightarrow>
          p \<in> {(CELSIUS, KELVIN), (KELVIN, CELSIUS), (CELSIUS, FAHRENHEIT),
                (FAHRENHEIT, CELSIUS), (FAHRENHEIT, KELVIN), (KELVIN, FAHRENHEIT)}"
      unfolding p by (cases A; cases B) simp_all
  qed
  moreover have "temperature_cast S' (Quantity S' v) = Inl UseOfDeletedFunction"
    using none [of S' S'] by (simp add: temperature_cast_def)
  moreover have "(temperature_cast R' q = Inl UseOfDeletedFunction) = (scale q = R')"
    using none [of "scale q" R'] by (auto simp: temperature_cast_def split: option.splits)
  ultimately show ?thesis using none [of S' R'] by blast
qed

section \<open>Fixed values and the self-check\<close>

lemma more_literals:
  "double_literal 0 = 0"
  "double_literal 32 = 0x4040000000000000"
  "double_neg 0x407CBAB851EB851F = 0xC07CBAB851EB851F"
  by (simp_all add: round_eval double_neg_def)

text \<open>
  C6.  Casting the literal \<open>0.0\<close> from Celsius to Kelvin gives the very \<open>double\<close> that the
  literal \<open>273.15\<close> denotes, casting it to Fahrenheit gives \<open>32.0\<close>, and casting \<open>-459.67\<close>
  from Fahrenheit to Kelvin gives \<open>0.0\<close>: equal bit patterns, no tolerance.
\<close>

theorem exact_fixed_values:
  "temperature_cast KELVIN (Quantity CELSIUS (double_literal 0)) =
     Inr (Quantity KELVIN (double_literal (27315 / 100))) \<and>
   temperature_cast FAHRENHEIT (Quantity CELSIUS (double_literal 0)) =
     Inr (Quantity FAHRENHEIT (double_literal 32)) \<and>
   temperature_cast KELVIN (Quantity FAHRENHEIT (double_neg (double_literal (45967 / 100)))) =
     Inr (Quantity KELVIN (double_literal 0))"
proof -
  have "double_add 0 0x4071126666666666 = 0x4071126666666666"
    by (simp add: op_eval unpack_eval round_eval)
  moreover have
    "double_add (double_div (double_mul 0 0x4022000000000000) 0x4014000000000000)
       0x4040000000000000 = 0x4040000000000000"
    by (simp add: op_eval unpack_eval round_eval)
  moreover have
    "double_div (double_mul (double_add 0xC07CBAB851EB851F 0x407CBAB851EB851F)
       0x4014000000000000) 0x4022000000000000 = 0"
    by (simp add: op_eval unpack_eval round_eval)
  ultimately show ?thesis
    by (simp only: cast_unfold more_literals literal_273_15 literal_459_67 int_constants
        simp_thms)
qed

text \<open>The twelve casts of the self-check, on bit patterns.\<close>

lemma casts_of_t1:
  "temperature_cast FAHRENHEIT (Quantity CELSIUS 0x4042400000000000) =
     Inr (Quantity FAHRENHEIT 0x40586CCCCCCCCCCD)"
  "temperature_cast CELSIUS (Quantity FAHRENHEIT 0x40586CCCCCCCCCCD) =
     Inr (Quantity CELSIUS 0x4042400000000000)"
  "temperature_cast KELVIN (Quantity CELSIUS 0x4042400000000000) =
     Inr (Quantity KELVIN 0x40735A6666666666)"
  "temperature_cast CELSIUS (Quantity KELVIN 0x40735A6666666666) =
     Inr (Quantity CELSIUS 0x4042400000000000)"
  by (simp_all only: cast_unfold literal_273_15 literal_459_67 int_constants)
     (simp_all add: op_eval unpack_eval round_eval)

lemma casts_of_t2:
  "temperature_cast CELSIUS (Quantity FAHRENHEIT 0x4053C00000000000) =
     Inr (Quantity CELSIUS 0x403A1C71C71C71C7)"
  "temperature_cast FAHRENHEIT (Quantity CELSIUS 0x403A1C71C71C71C7) =
     Inr (Quantity FAHRENHEIT 0x4053C00000000000)"
  "temperature_cast KELVIN (Quantity FAHRENHEIT 0x4053C00000000000) =
     Inr (Quantity KELVIN 0x4072B42D82D82D84)"
  "temperature_cast FAHRENHEIT (Quantity KELVIN 0x4072B42D82D82D84) =
     Inr (Quantity FAHRENHEIT 0x4053C00000000004)"
  by (simp_all only: cast_unfold literal_273_15 literal_459_67 int_constants)
     (simp_all add: op_eval unpack_eval round_eval)

lemma casts_of_t3:
  "temperature_cast CELSIUS (Quantity KELVIN 0x4059000000000000) =
     Inr (Quantity CELSIUS 0xC065A4CCCCCCCCCC)"
  "temperature_cast KELVIN (Quantity CELSIUS 0xC065A4CCCCCCCCCC) =
     Inr (Quantity KELVIN 0x4059000000000000)"
  "temperature_cast FAHRENHEIT (Quantity KELVIN 0x4059000000000000) =
     Inr (Quantity FAHRENHEIT 0xC0717AB851EB851F)"
  "temperature_cast KELVIN (Quantity FAHRENHEIT 0xC0717AB851EB851F) =
     Inr (Quantity KELVIN 0x4059000000000000)"
  by (simp_all only: cast_unfold literal_273_15 literal_459_67 int_constants)
     (simp_all add: op_eval unpack_eval round_eval)

lemma comparisons_of_self_check:
  "AreEqual 0x4042400000000000 0x4042400000000000"
  "AreEqual 0x4053C00000000000 0x4053C00000000000"
  "AreEqual 0x4053C00000000000 0x4053C00000000004"
  "AreEqual 0x4059000000000000 0x4059000000000000"
  by (simp_all add: AreEqual_def EPSILON_bits op_eval unpack_eval round_eval)

lemma blocks_pass:
  "block1 = Inr ()" "block2 = Inr ()" "block3 = Inr ()"
  "block4 = Inr ()" "block5 = Inr ()" "block6 = Inr ()"
  by (simp_all add: block1_def block2_def block3_def block4_def block5_def block6_def
      sample_quantities casts_of_t1 casts_of_t2 casts_of_t3 well_formed_def operator_eq_def
      comparisons_of_self_check assert_def)

text \<open>
  C5.  The self-check builds 36.5 Celsius, 79.0 Fahrenheit and 100.0 Kelvin, converts each
  through the other two scales and back, and each of the six assertions holds, so that
  \<open>main\<close> reaches its end and returns 0.
\<close>

theorem self_check_passes:
  "valof (amount t1) = 365 / 10 \<and> scale t1 = CELSIUS \<and>
   valof (amount t2) = 79 \<and> scale t2 = FAHRENHEIT \<and>
   valof (amount t3) = 100 \<and> scale t3 = KELVIN \<and>
   [block1, block2, block3, block4, block5, block6] = replicate 6 (Inr ()) \<and>
   main = Inr 0"
proof -
  have "valof 0x4042400000000000 = 365 / 10" "valof 0x4053C00000000000 = 79"
    "valof 0x4059000000000000 = 100"
    by (simp_all add: unpack_eval pow2_def)
  then show ?thesis
    by (simp add: sample_quantities main_def blocks_pass numeral_eq_Suc)
qed

section \<open>The tolerance as a relation\<close>

text \<open>
  C10, as stated, at an infinity.  The sum of two finite quantities can be infinite, and
  an infinite quantity is not equal to itself: the difference of two infinities is a NaN,
  and no NaN is less than \<open>EPSILON\<close>.
\<close>

theorem infinity_not_equal_to_itself:
  "is_finite 0x7FEFFFFFFFFFFFFF \<and>
   operator_plus (Quantity CELSIUS 0x7FEFFFFFFFFFFFFF) (Quantity CELSIUS 0x7FEFFFFFFFFFFFFF) =
     Inr (Quantity CELSIUS plus_inf) \<and>
   operator_eq (Quantity CELSIUS plus_inf) (Quantity CELSIUS plus_inf) = Inr False"
proof -
  have "double_add 0x7FEFFFFFFFFFFFFF 0x7FEFFFFFFFFFFFFF = plus_inf"
    by (simp add: op_eval unpack_eval round_eval)
  moreover have "is_finite 0x7FEFFFFFFFFFFFFF" "\<not> is_finite plus_inf"
    by (simp_all add: unpack_eval plus_inf_def)
  ultimately show ?thesis
    by (simp add: operator_plus_def operator_eq_def AreEqual_not_refl)
qed

text \<open>
  C10, amended.  On quantities of one scale the tolerance equality is symmetric; a
  quantity is equal to itself exactly when its raw value is finite; and the equality is
  not transitive: 0 and 0.0009 are equal, 0.0009 and 0.0018 are equal, 0 and 0.0018 are
  not.
\<close>

theorem tolerance_equality_relation:
  "operator_eq (Quantity S x) (Quantity S x) = Inr (is_finite x) \<and>
   operator_eq (Quantity S x) (Quantity S y) = operator_eq (Quantity S y) (Quantity S x) \<and>
   operator_eq (Quantity S (double_literal 0)) (Quantity S (double_literal (9 / 10000))) =
     Inr True \<and>
   operator_eq (Quantity S (double_literal (9 / 10000)))
     (Quantity S (double_literal (18 / 10000))) = Inr True \<and>
   operator_eq (Quantity S (double_literal 0)) (Quantity S (double_literal (18 / 10000))) =
     Inr False"
proof -
  have lits: "double_literal 0 = 0" "double_literal (9 / 10000) = 0x3F4D7DBF487FCB92"
    "double_literal (18 / 10000) = 0x3F5D7DBF487FCB92"
    by (simp_all add: round_eval)
  have "AreEqual 0 0x3F4D7DBF487FCB92" "AreEqual 0x3F4D7DBF487FCB92 0x3F5D7DBF487FCB92"
    "\<not> AreEqual 0 0x3F5D7DBF487FCB92"
    by (simp_all add: AreEqual_def EPSILON_bits op_eval unpack_eval round_eval)
  moreover have "AreEqual x x = is_finite x"
    using AreEqual_refl [of x] AreEqual_not_refl [of x] by blast
  ultimately show ?thesis
    unfolding lits by (simp add: operator_eq_def AreEqual_sym [of x y])
qed

section \<open>Conversions in exact arithmetic\<close>

text \<open>
  C9.  In exact arithmetic each direct conversion between Fahrenheit and Kelvin is the
  composition of the two conversions through Celsius.
\<close>

theorem fahrenheit_kelvin_through_celsius:
  fixes v :: "'a::field_char_0"
  shows
  "exact_Convert FAHRENHEIT KELVIN v =
     Option.bind (exact_Convert FAHRENHEIT CELSIUS v) (exact_Convert CELSIUS KELVIN) \<and>
   exact_Convert KELVIN FAHRENHEIT v =
     Option.bind (exact_Convert KELVIN CELSIUS v) (exact_Convert CELSIUS FAHRENHEIT) \<and>
   exact_Convert FAHRENHEIT KELVIN v = Some ((v - 32) * 5 / 9 + 27315 / 100) \<and>
   exact_Convert KELVIN FAHRENHEIT v = Some ((v - 27315 / 100) * 9 / 5 + 32) \<and>
   (v + 45967 / 100) * 5 / 9 = (v - 32) * 5 / 9 + 27315 / 100 \<and>
   (v * 9) / 5 - 45967 / 100 = (v - 27315 / 100) * 9 / 5 + 32"
  by (simp add: field_simps)

section \<open>Round trips\<close>

text \<open>
  The constants of the conversions are finite.  The two decimal literals do not have the
  values they are written as, but a round trip adds and takes away the same \<open>double\<close>.
\<close>

lemma fin_nine: "is_finite (double_of_int 9)" and val_nine: "valof (double_of_int 9) = 9"
  and fin_five: "is_finite (double_of_int 5)" and val_five: "valof (double_of_int 5) = 5"
  and fin_thirtytwo: "is_finite (double_of_int 32)"
  and val_thirtytwo: "valof (double_of_int 32) = 32"
  by (simp_all add: int_constants unpack_eval pow2_def)

lemma fin_c1: "is_finite (double_literal (27315 / 100))"
  and val_c1: "valof (double_literal (27315 / 100)) = 2402652809016115 / 8796093022208"
  and fin_c2: "is_finite (double_literal (45967 / 100))"
  and val_c2: "valof (double_literal (45967 / 100)) = 8086600159036703 / 17592186044416"
  unfolding literal_273_15 literal_459_67 by (simp_all add: unpack_eval pow2_def)

text \<open>
  Each of the six lemmas follows one round trip operation by operation.  A step records
  the number its result is near, the error accumulated so far and a bound on the
  magnitude; the side conditions of the step are comparisons of numerals.
\<close>

lemma round_trip_celsius_fahrenheit:
  assumes "is_finite v" "\<bar>valof v\<bar> \<le> 10 ^ 12"
  shows "AreEqual v
    (double_div (double_mul (double_sub (double_add (double_div (double_mul v
      (double_of_int 9)) (double_of_int 5)) (double_of_int 32)) (double_of_int 32))
      (double_of_int 5)) (double_of_int 9))"
proof -
  have s0: "approx v (valof v) 0 1000000000000"
    using assms by (simp add: approx_def)
  let ?y1 = "double_mul v (double_of_int 9)"
  have s1: "approx ?y1 (valof v * 9) (999201 / 1000000000) 9000000000000"
    by (rule approx_mul [OF s0 fin_nine val_nine]) simp_all
  let ?y2 = "double_div ?y1 (double_of_int 5)"
  have s2: "approx ?y2 (valof v * 9 / 5) (399681 / 1000000000) 1800000000000"
    by (rule approx_div [OF s1 fin_five val_five]) simp_all
  let ?y3 = "double_add ?y2 (double_of_int 32)"
  have s3: "approx ?y3 (valof v * 9 / 5 + 32) (599522 / 1000000000) 1800000000032"
    by (rule approx_add [OF s2 fin_thirtytwo val_thirtytwo]) simp_all
  let ?y4 = "double_sub ?y3 (double_of_int 32)"
  have s4: "approx ?y4 (valof v * 9 / 5 + 32 - 32) (799363 / 1000000000) 1800000000064"
    by (rule approx_sub [OF s3 fin_thirtytwo val_thirtytwo]) simp_all
  let ?y5 = "double_mul ?y4 (double_of_int 5)"
  have s5: "approx ?y5 ((valof v * 9 / 5 + 32 - 32) * 5) (4996016 / 1000000000) 9000000000320"
    by (rule approx_mul [OF s4 fin_five val_five]) simp_all
  let ?y6 = "double_div ?y5 (double_of_int 9)"
  have s6: "approx ?y6
      ((valof v * 9 / 5 + 32 - 32) * 5 / 9)
      (666136 / 1000000000) 1000000000036"
    by (rule approx_div [OF s5 fin_nine val_nine]) simp_all
  have "(valof v * 9 / 5 + 32 - 32) * 5 / 9 = valof v"
    by (simp add: field_simps)
  with s6 have "approx ?y6 (valof v) (666136 / 1000000000) 1000000000036" by simp
  then show ?thesis by (rule AreEqual_close [OF assms(1)]) simp
qed

lemma round_trip_celsius_kelvin:
  assumes "is_finite v" "\<bar>valof v\<bar> \<le> 10 ^ 12"
  shows "AreEqual v
    (double_sub (double_add v (double_literal (27315 / 100))) (double_literal (27315 /
      100)))"
proof -
  have s0: "approx v (valof v) 0 1000000000000"
    using assms by (simp add: approx_def)
  let ?y1 = "double_add v (double_literal (27315 / 100))"
  have s1: "approx ?y1
      (valof v + (2402652809016115 / 8796093022208))
      (111023 / 1000000000) 1000000000274"
    by (rule approx_add [OF s0 fin_c1 val_c1]) simp_all
  let ?y2 = "double_sub ?y1 (double_literal (27315 / 100))"
  have s2: "approx ?y2
      (valof v + (2402652809016115 / 8796093022208) - (2402652809016115 / 8796093022208))
      (222046 / 1000000000) 1000000000548"
    by (rule approx_sub [OF s1 fin_c1 val_c1]) simp_all
  have "valof v + (2402652809016115 / 8796093022208) - (2402652809016115 / 8796093022208)
      = valof v"
    by (simp add: field_simps)
  with s2 have "approx ?y2 (valof v) (222046 / 1000000000) 1000000000548" by simp
  then show ?thesis by (rule AreEqual_close [OF assms(1)]) simp
qed

lemma round_trip_fahrenheit_celsius:
  assumes "is_finite v" "\<bar>valof v\<bar> \<le> 10 ^ 12"
  shows "AreEqual v
    (double_add (double_div (double_mul (double_div (double_mul (double_sub v
      (double_of_int 32)) (double_of_int 5)) (double_of_int 9)) (double_of_int 9))
      (double_of_int 5)) (double_of_int 32))"
proof -
  have s0: "approx v (valof v) 0 1000000000000"
    using assms by (simp add: approx_def)
  let ?y1 = "double_sub v (double_of_int 32)"
  have s1: "approx ?y1 (valof v - 32) (111023 / 1000000000) 1000000000032"
    by (rule approx_sub [OF s0 fin_thirtytwo val_thirtytwo]) simp_all
  let ?y2 = "double_mul ?y1 (double_of_int 5)"
  have s2: "approx ?y2 ((valof v - 32) * 5) (1110227 / 1000000000) 5000000000160"
    by (rule approx_mul [OF s1 fin_five val_five]) simp_all
  let ?y3 = "double_div ?y2 (double_of_int 9)"
  have s3: "approx ?y3 ((valof v - 32) * 5 / 9) (185038 / 1000000000) 555555555574"
    by (rule approx_div [OF s2 fin_nine val_nine]) simp_all
  let ?y4 = "double_mul ?y3 (double_of_int 9)"
  have s4: "approx ?y4 ((valof v - 32) * 5 / 9 * 9) (2220454 / 1000000000) 5000000000166"
    by (rule approx_mul [OF s3 fin_nine val_nine]) simp_all
  let ?y5 = "double_div ?y4 (double_of_int 5)"
  have s5: "approx ?y5 ((valof v - 32) * 5 / 9 * 9 / 5) (555114 / 1000000000) 1000000000034"
    by (rule approx_div [OF s4 fin_five val_five]) simp_all
  let ?y6 = "double_add ?y5 (double_of_int 32)"
  have s6: "approx ?y6
      ((valof v - 32) * 5 / 9 * 9 / 5 + 32)
      (666137 / 1000000000) 1000000000066"
    by (rule approx_add [OF s5 fin_thirtytwo val_thirtytwo]) simp_all
  have "(valof v - 32) * 5 / 9 * 9 / 5 + 32 = valof v"
    by (simp add: field_simps)
  with s6 have "approx ?y6 (valof v) (666137 / 1000000000) 1000000000066" by simp
  then show ?thesis by (rule AreEqual_close [OF assms(1)]) simp
qed

lemma round_trip_fahrenheit_kelvin:
  assumes "is_finite v" "\<bar>valof v\<bar> \<le> 10 ^ 12"
  shows "AreEqual v
    (double_sub (double_div (double_mul (double_div (double_mul (double_add v
      (double_literal (45967 / 100))) (double_of_int 5)) (double_of_int 9))
      (double_of_int 9)) (double_of_int 5)) (double_literal (45967 / 100)))"
proof -
  have s0: "approx v (valof v) 0 1000000000000"
    using assms by (simp add: approx_def)
  let ?y1 = "double_add v (double_literal (45967 / 100))"
  have s1: "approx ?y1
      (valof v
        + (8086600159036703 / 17592186044416))
      (111023 / 1000000000) 1000000000460"
    by (rule approx_add [OF s0 fin_c2 val_c2]) simp_all
  let ?y2 = "double_mul ?y1 (double_of_int 5)"
  have s2: "approx ?y2
      ((valof v
        + (8086600159036703 / 17592186044416)) * 5)
      (1110227 / 1000000000) 5000000002300"
    by (rule approx_mul [OF s1 fin_five val_five]) simp_all
  let ?y3 = "double_div ?y2 (double_of_int 9)"
  have s3: "approx ?y3
      ((valof v
        + (8086600159036703 / 17592186044416)) * 5 / 9)
      (185038 / 1000000000) 555555555812"
    by (rule approx_div [OF s2 fin_nine val_nine]) simp_all
  let ?y4 = "double_mul ?y3 (double_of_int 9)"
  have s4: "approx ?y4
      ((valof v
        + (8086600159036703 / 17592186044416)) * 5 / 9 * 9)
      (2220454 / 1000000000) 5000000002308"
    by (rule approx_mul [OF s3 fin_nine val_nine]) simp_all
  let ?y5 = "double_div ?y4 (double_of_int 5)"
  have s5: "approx ?y5
      ((valof v
        + (8086600159036703 / 17592186044416)) * 5 / 9 * 9 / 5)
      (555114 / 1000000000) 1000000000462"
    by (rule approx_div [OF s4 fin_five val_five]) simp_all
  let ?y6 = "double_sub ?y5 (double_literal (45967 / 100))"
  have s6: "approx ?y6
      ((valof v
        + (8086600159036703 / 17592186044416)) * 5 / 9 * 9 / 5
        - (8086600159036703 / 17592186044416))
      (666137 / 1000000000) 1000000000922"
    by (rule approx_sub [OF s5 fin_c2 val_c2]) simp_all
  have "(valof v
        + (8086600159036703 / 17592186044416)) * 5 / 9 * 9 / 5
        - (8086600159036703 / 17592186044416)
      = valof v"
    by (simp add: field_simps)
  with s6 have "approx ?y6 (valof v) (666137 / 1000000000) 1000000000922" by simp
  then show ?thesis by (rule AreEqual_close [OF assms(1)]) simp
qed

lemma round_trip_kelvin_celsius:
  assumes "is_finite v" "\<bar>valof v\<bar> \<le> 10 ^ 12"
  shows "AreEqual v
    (double_add (double_sub v (double_literal (27315 / 100))) (double_literal (27315 /
      100)))"
proof -
  have s0: "approx v (valof v) 0 1000000000000"
    using assms by (simp add: approx_def)
  let ?y1 = "double_sub v (double_literal (27315 / 100))"
  have s1: "approx ?y1
      (valof v - (2402652809016115 / 8796093022208))
      (111023 / 1000000000) 1000000000274"
    by (rule approx_sub [OF s0 fin_c1 val_c1]) simp_all
  let ?y2 = "double_add ?y1 (double_literal (27315 / 100))"
  have s2: "approx ?y2
      (valof v - (2402652809016115 / 8796093022208) + (2402652809016115 / 8796093022208))
      (222046 / 1000000000) 1000000000548"
    by (rule approx_add [OF s1 fin_c1 val_c1]) simp_all
  have "valof v - (2402652809016115 / 8796093022208) + (2402652809016115 / 8796093022208)
      = valof v"
    by (simp add: field_simps)
  with s2 have "approx ?y2 (valof v) (222046 / 1000000000) 1000000000548" by simp
  then show ?thesis by (rule AreEqual_close [OF assms(1)]) simp
qed

lemma round_trip_kelvin_fahrenheit:
  assumes "is_finite v" "\<bar>valof v\<bar> \<le> 10 ^ 12"
  shows "AreEqual v
    (double_div (double_mul (double_add (double_sub (double_div (double_mul v
      (double_of_int 9)) (double_of_int 5)) (double_literal (45967 / 100)))
      (double_literal (45967 / 100))) (double_of_int 5)) (double_of_int 9))"
proof -
  have s0: "approx v (valof v) 0 1000000000000"
    using assms by (simp add: approx_def)
  let ?y1 = "double_mul v (double_of_int 9)"
  have s1: "approx ?y1 (valof v * 9) (999201 / 1000000000) 9000000000000"
    by (rule approx_mul [OF s0 fin_nine val_nine]) simp_all
  let ?y2 = "double_div ?y1 (double_of_int 5)"
  have s2: "approx ?y2 (valof v * 9 / 5) (399681 / 1000000000) 1800000000000"
    by (rule approx_div [OF s1 fin_five val_five]) simp_all
  let ?y3 = "double_sub ?y2 (double_literal (45967 / 100))"
  have s3: "approx ?y3
      (valof v * 9 / 5
        - (8086600159036703 / 17592186044416))
      (599522 / 1000000000) 1800000000460"
    by (rule approx_sub [OF s2 fin_c2 val_c2]) simp_all
  let ?y4 = "double_add ?y3 (double_literal (45967 / 100))"
  have s4: "approx ?y4
      (valof v * 9 / 5
        - (8086600159036703 / 17592186044416)
        + (8086600159036703 / 17592186044416))
      (799363 / 1000000000) 1800000000920"
    by (rule approx_add [OF s3 fin_c2 val_c2]) simp_all
  let ?y5 = "double_mul ?y4 (double_of_int 5)"
  have s5: "approx ?y5
      ((valof v * 9 / 5
        - (8086600159036703 / 17592186044416)
        + (8086600159036703 / 17592186044416)) * 5)
      (4996016 / 1000000000) 9000000004600"
    by (rule approx_mul [OF s4 fin_five val_five]) simp_all
  let ?y6 = "double_div ?y5 (double_of_int 9)"
  have s6: "approx ?y6
      ((valof v * 9 / 5
        - (8086600159036703 / 17592186044416)
        + (8086600159036703 / 17592186044416)) * 5 / 9)
      (666136 / 1000000000) 1000000000512"
    by (rule approx_div [OF s5 fin_nine val_nine]) simp_all
  have "(valof v * 9 / 5
        - (8086600159036703 / 17592186044416)
        + (8086600159036703 / 17592186044416)) * 5 / 9
      = valof v"
    by (simp add: field_simps)
  with s6 have "approx ?y6 (valof v) (666136 / 1000000000) 1000000000512" by simp
  then show ?thesis by (rule AreEqual_close [OF assms(1)]) simp
qed


text \<open>
  C2, as stated, at \<open>2 ^ 44\<close> degrees Celsius.  Adding 273.15 rounds to a multiple of
  \<open>1 / 256\<close>, taking it away again gives the \<open>double\<close> just below \<open>2 ^ 44\<close>, and the two
  differ by \<open>1 / 512\<close>, which is more than \<open>EPSILON\<close>.
\<close>

theorem round_trip_fails_at_2_pow_44:
  "valof 0x42B0000000000000 = 2 ^ 44 \<and>
   temperature_cast KELVIN (Quantity CELSIUS 0x42B0000000000000) =
     Inr (Quantity KELVIN 0x42B0000000011126) \<and>
   temperature_cast CELSIUS (Quantity KELVIN 0x42B0000000011126) =
     Inr (Quantity CELSIUS 0x42AFFFFFFFFFFFFF) \<and>
   valof 0x42B0000000000000 - valof 0x42AFFFFFFFFFFFFF = 1 / 512 \<and>
   operator_eq (Quantity CELSIUS 0x42B0000000000000) (Quantity CELSIUS 0x42AFFFFFFFFFFFFF) =
     Inr False"
proof -
  have "double_add 0x42B0000000000000 0x4071126666666666 = 0x42B0000000011126"
    "double_sub 0x42B0000000011126 0x4071126666666666 = 0x42AFFFFFFFFFFFFF"
    by (simp_all add: op_eval unpack_eval round_eval)
  then have "temperature_cast KELVIN (Quantity CELSIUS 0x42B0000000000000) =
      Inr (Quantity KELVIN 0x42B0000000011126)"
    "temperature_cast CELSIUS (Quantity KELVIN 0x42B0000000011126) =
      Inr (Quantity CELSIUS 0x42AFFFFFFFFFFFFF)"
    by (simp_all only: cast_unfold literal_273_15)
  moreover have "valof 0x42B0000000000000 = 2 ^ 44"
    "valof 0x42AFFFFFFFFFFFFF = 2 ^ 44 - 1 / 512"
    by (simp_all add: unpack_eval pow2_def)
  moreover have "\<not> AreEqual 0x42B0000000000000 0x42AFFFFFFFFFFFFF"
    by (simp add: AreEqual_def EPSILON_bits op_eval unpack_eval round_eval)
  ultimately show ?thesis
    by (simp add: operator_eq_def)
qed

text \<open>
  C2, amended.  For a quantity of scale \<open>S\<close> whose raw value is finite and at most
  \<open>10 ^ 12\<close> in absolute value, and any other scale \<open>T\<close>, the cast to \<open>T\<close> and back to
  \<open>S\<close> gives a quantity equal to the original within the tolerance.
\<close>

theorem round_trip_within_tolerance:
  assumes "S \<noteq> T" "is_finite v" "\<bar>valof v\<bar> \<le> 10 ^ 12"
  shows "\<exists>mid back.
    temperature_cast T (Quantity S v) = Inr mid \<and>
    temperature_cast S mid = Inr back \<and>
    operator_eq (Quantity S v) back = Inr True"
  using assms(1)
    round_trip_celsius_fahrenheit [OF assms(2,3)] round_trip_celsius_kelvin [OF assms(2,3)]
    round_trip_fahrenheit_celsius [OF assms(2,3)] round_trip_fahrenheit_kelvin [OF assms(2,3)]
    round_trip_kelvin_celsius [OF assms(2,3)] round_trip_kelvin_fahrenheit [OF assms(2,3)]
  by (cases S; cases T) (simp_all only: cast_unfold operator_eq_def Quantity.sel, simp_all)

theorem round_trip_within_tolerance_witness:
  "CELSIUS \<noteq> KELVIN \<and> is_finite 0x4042400000000000 \<and>
   \<bar>valof 0x4042400000000000\<bar> \<le> 10 ^ 12 \<and>
   (\<exists>mid back.
      temperature_cast KELVIN (Quantity CELSIUS 0x4042400000000000) = Inr mid \<and>
      temperature_cast CELSIUS mid = Inr back \<and>
      operator_eq (Quantity CELSIUS 0x4042400000000000) back = Inr True)"
proof -
  have a: "CELSIUS \<noteq> KELVIN" by simp
  have b: "is_finite 0x4042400000000000"
    and c: "\<bar>valof 0x4042400000000000\<bar> \<le> 10 ^ 12"
    by (simp_all add: unpack_eval pow2_def)
  from a b c round_trip_within_tolerance [OF a b c] show ?thesis by blast
qed

end
